theory Spec2Isabelle
  imports Complex_Main "HOL-Library.AList"
begin

section \<open>Python values used by the voice chat module\<close>

text \<open>
  A Python \<open>dict\<close> keeps its keys in insertion order. It is modelled as an association
  list: \<open>d.get(k, v)\<close> is \<open>dict_get\<close>, \<open>d[k] = v\<close> is \<open>AList.update\<close> (an existing key
  keeps its place, a new key goes to the end), \<open>d.pop(k, None)\<close> is \<open>AList.delete\<close>,
  and \<open>k in d\<close> is \<open>map_of d k \<noteq> None\<close>. The keys of a dict are distinct.
\<close>

type_synonym ('k, 'v) dict = "('k \<times> 'v) list"

definition dict_get :: "('k, 'v) dict \<Rightarrow> 'k \<Rightarrow> 'v \<Rightarrow> 'v" where
  "dict_get d k dflt = (case map_of d k of None \<Rightarrow> dflt | Some v \<Rightarrow> v)"

datatype py_error =
  IndexError | TypeError | ValueError | AttributeError | OverflowError | OtherError

text \<open>
  \<open>xs[i]\<close> on a Python list: \<open>i\<close> from \<open>-len(xs)\<close> to \<open>-1\<close> reads from the end, and
  an index outside \<open>-len(xs) .. len(xs) - 1\<close> raises \<open>IndexError\<close>.
\<close>

definition py_index :: "'a list \<Rightarrow> int \<Rightarrow> py_error + 'a" where
  "py_index xs i =
     (if 0 \<le> i \<and> i < int (length xs) then Inr (xs ! nat i)
      else if i < 0 \<and> - int (length xs) \<le> i then Inr (xs ! nat (int (length xs) + i))
      else Inl IndexError)"

section \<open>QueueItem\<close>

record queue_item =
  file_path :: string
  title :: string
  duration :: int
  is_video :: bool
  source_type :: string
  added_by :: int
  timestamp :: real

section \<open>QueueManager\<close>

record queue_manager =
  queues :: "(int, queue_item list) dict"
  current_playing :: "(int, int) dict"
  repeat_mode :: "(int, bool) dict"

text \<open>The manager as \<open>__init__\<close> leaves it.\<close>

definition new_queue_manager :: queue_manager where
  "new_queue_manager = \<lparr>queues = [], current_playing = [], repeat_mode = []\<rparr>"

text \<open>
  \<open>add_item\<close>; \<open>now\<close> is the value of \<open>time.time()\<close> at the call. The source stamps
  the caller's object in place and stores a reference to it; here the stamped copy is
  stored.
\<close>

definition add_item :: "real \<Rightarrow> queue_manager \<Rightarrow> int \<Rightarrow> queue_item \<Rightarrow> int \<times> queue_manager" where
  "add_item now qm chat_id item =
     (let qs = (if map_of (queues qm) chat_id = None
                then AList.update chat_id [] (queues qm) else queues qm);
          item' = item\<lparr>timestamp := now\<rparr>;
          queue = dict_get qs chat_id [] @ [item']
      in (int (length queue), qm\<lparr>queues := AList.update chat_id queue qs\<rparr>))"

definition get_queue :: "queue_manager \<Rightarrow> int \<Rightarrow> queue_item list" where
  "get_queue qm chat_id = dict_get (queues qm) chat_id []"

definition get_current :: "queue_manager \<Rightarrow> int \<Rightarrow> queue_item option" where
  "get_current qm chat_id =
     (let queue = get_queue qm chat_id;
          current_index = dict_get (current_playing qm) chat_id 0
      in if queue \<noteq> [] \<and> 0 \<le> current_index \<and> current_index < int (length queue)
         then Some (queue ! nat current_index) else None)"

text \<open>
  \<open>next_item\<close> returns the entry or \<open>None\<close>; the last line \<open>queue[next_index]\<close> is a Python
  index, which raises for an index below \<open>-len(queue)\<close>, after the cursor was stored.
\<close>

definition next_item ::
  "queue_manager \<Rightarrow> int \<Rightarrow> (py_error + queue_item option) \<times> queue_manager" where
  "next_item qm chat_id =
     (let queue = get_queue qm chat_id in
      if queue = [] then (Inr None, qm)
      else
        let current_index = dict_get (current_playing qm) chat_id 0;
            next_index = current_index + 1
        in if next_index \<ge> int (length queue) \<and> \<not> dict_get (repeat_mode qm) chat_id False
           then (Inr None, qm)
           else
             let next_index' = (if next_index \<ge> int (length queue) then 0 else next_index);
                 qm' = qm\<lparr>current_playing := AList.update chat_id next_index' (current_playing qm)\<rparr>
             in (case py_index queue next_index' of
                   Inl e \<Rightarrow> (Inl e, qm')
                 | Inr x \<Rightarrow> (Inr (Some x), qm')))"

definition clear_queue :: "queue_manager \<Rightarrow> int \<Rightarrow> queue_manager" where
  "clear_queue qm chat_id =
     qm\<lparr>queues := AList.delete chat_id (queues qm),
        current_playing := AList.delete chat_id (current_playing qm)\<rparr>"

definition set_repeat :: "queue_manager \<Rightarrow> int \<Rightarrow> bool \<Rightarrow> queue_manager" where
  "set_repeat qm chat_id enabled =
     qm\<lparr>repeat_mode := AList.update chat_id enabled (repeat_mode qm)\<rparr>"

definition is_repeat_enabled :: "queue_manager \<Rightarrow> int \<Rightarrow> bool" where
  "is_repeat_enabled qm chat_id = dict_get (repeat_mode qm) chat_id False"

text \<open>The cursor of a destination: \<open>self._current_playing.get(chat_id, 0)\<close>.\<close>

definition cursor :: "queue_manager \<Rightarrow> int \<Rightarrow> int" where
  "cursor qm chat_id = dict_get (current_playing qm) chat_id 0"

section \<open>PyrogramTgCallsBackend\<close>

text \<open>
  The call library (PyTgCalls) is outside the module. Its calls are recorded as effects,
  and what a call does (return, raise \<open>ImportError\<close>/\<open>AttributeError\<close>, raise anything
  else) is the environment's answer \<open>lib\<close>. The log lines of the module are effects too.
\<close>

datatype stream = AudioPiped string | VideoPiped string

datatype lib_call =
    JoinGroupCall int stream string
  | ChangeStream int stream string
  | LeaveGroupCall int

datatype lib_outcome = Returns | RaisesApiError | RaisesOther

datatype log_line =
    LogNotInitialized
  | LogMediaNotFound string
  | LogApiError
  | LogStartedPlaying string int
  | LogPlayFailed int
  | LogLeaveWarning
  | LogLeft int
  | LogStopped int
  | LogFileNotFound string
  | LogNowPlaying string int
  | LogFailedToPlay string
  | LogPlayNextError

datatype effect = Lib lib_call | Log log_line

record call_info =
  joined_at :: real
  current_stream :: "string option"
  is_paused :: bool

text \<open>\<open>has_pytgcalls\<close> says that \<open>self.pytgcalls\<close> is not \<open>None\<close>.\<close>

record backend =
  has_pytgcalls :: bool
  is_initialized :: bool
  active_calls :: "(int, call_info) dict"

text \<open>
  The environment of a call: the files on disk, the answers of the call library, whether
  \<open>from pytgcalls.types import ...\<close> succeeds, and the value of \<open>time.time()\<close>.
\<close>

record environment =
  disk :: "string set"
  lib :: "lib_call \<Rightarrow> lib_outcome"
  types_importable :: bool
  clock :: real

text \<open>\<open>os.path.exists\<close>; the empty path never exists.\<close>

definition path_exists :: "environment \<Rightarrow> string \<Rightarrow> bool" where
  "path_exists env path = (path \<noteq> [] \<and> path \<in> disk env)"

text \<open>The truth value of \<open>call_info.get('current_stream')\<close>: a non-empty string.\<close>

definition has_stream :: "backend \<Rightarrow> int \<Rightarrow> bool" where
  "has_stream b chat_id =
     (case map_of (active_calls b) chat_id of
        None \<Rightarrow> False
      | Some info \<Rightarrow> (case current_stream info of None \<Rightarrow> False | Some s \<Rightarrow> s \<noteq> []))"

text \<open>
  A call on \<open>self.pytgcalls\<close>: on \<open>None\<close> the attribute access raises \<open>AttributeError\<close>
  and the library is not reached.
\<close>

definition call_lib :: "environment \<Rightarrow> backend \<Rightarrow> lib_call \<Rightarrow> lib_outcome \<times> effect list" where
  "call_lib env b c =
     (if has_pytgcalls b then (lib env c, [Lib c]) else (RaisesApiError, []))"

definition leave_voice_chat ::
  "environment \<Rightarrow> backend \<Rightarrow> int \<Rightarrow> bool \<times> backend \<times> effect list" where
  "leave_voice_chat env b chat_id =
     (if map_of (active_calls b) chat_id = None then (True, b, [])
      else
        let (out, eff) = call_lib env b (LeaveGroupCall chat_id);
            warn = (if out = Returns then [] else [Log LogLeaveWarning])
        in (True, b\<lparr>active_calls := AList.delete chat_id (active_calls b)\<rparr>,
            eff @ warn @ [Log (LogLeft chat_id)]))"

text \<open>
  \<open>play_media\<close>. The import of the stream types is the first statement of the inner
  \<open>try\<close>; a video stream is always sent with quality \<open>medium\<close>. Every failure returns
  the same \<open>False\<close>.
\<close>

definition stream_for :: "bool \<Rightarrow> string \<Rightarrow> stream" where
  "stream_for video path = (if video then VideoPiped path else AudioPiped path)"

definition quality_for :: "bool \<Rightarrow> string \<Rightarrow> string" where
  "quality_for video quality = (if video then ''medium'' else quality)"

definition play_media ::
  "environment \<Rightarrow> backend \<Rightarrow> int \<Rightarrow> string \<Rightarrow> bool \<Rightarrow> string \<Rightarrow> bool \<times> backend \<times> effect list" where
  "play_media env b chat_id path video quality =
     (if \<not> is_initialized b then (False, b, [Log LogNotInitialized])
      else if \<not> path_exists env path then (False, b, [Log (LogMediaNotFound path)])
      else if \<not> types_importable env then (False, b, [Log LogApiError])
      else
        let media = stream_for video path;
            q = quality_for video quality;
            switch = has_stream b chat_id;
            c = (if switch then ChangeStream chat_id media q else JoinGroupCall chat_id media q);
            (out, eff) = call_lib env b c
        in case out of
             RaisesApiError \<Rightarrow> (False, b, eff @ [Log LogApiError])
           | RaisesOther \<Rightarrow> (False, b, eff @ [Log (LogPlayFailed chat_id)])
           | Returns \<Rightarrow>
               let b1 = (if switch then b
                         else b\<lparr>active_calls := AList.update chat_id
                                 \<lparr>joined_at = clock env, current_stream = Some path,
                                  is_paused = False\<rparr> (active_calls b)\<rparr>);
                   b2 = (case map_of (active_calls b1) chat_id of
                           None \<Rightarrow> b1
                         | Some info \<Rightarrow>
                             b1\<lparr>active_calls := AList.update chat_id
                                  (info\<lparr>current_stream := Some path, is_paused := False\<rparr>)
                                  (active_calls b1)\<rparr>)
               in (True, b2, eff @ [Log (LogStartedPlaying path chat_id)]))"



definition stop_stream ::
  "environment \<Rightarrow> backend \<Rightarrow> int \<Rightarrow> bool \<times> backend \<times> effect list" where
  "stop_stream env b chat_id =
     (if map_of (active_calls b) chat_id = None then (False, b, [])
      else
        let (left, b', eff) = leave_voice_chat env b chat_id
        in (True, b', eff @ [Log (LogStopped chat_id)]))"

section \<open>VoiceChatNativeMod: playing the next entry\<close>

text \<open>
  \<open>_play_next\<close> calls itself after every entry it could not play. The first argument
  bounds the depth of these calls; \<open>None\<close> says that the call did not return within it.
  CPython bounds the depth itself: past its recursion limit the innermost frame catches
  \<open>RecursionError\<close> and the call returns, after about a thousand retries.
  An exception of \<open>next_item\<close> is caught by the \<open>except\<close> of the frame it is raised in.
\<close>

fun skip_or_stop ::
  "(py_error + queue_item option) \<times> queue_manager \<Rightarrow> bool \<times> queue_manager \<times> effect list" where
  "skip_or_stop (Inl e, qm) = (False, qm, [Log LogPlayNextError])"
| "skip_or_stop (Inr None, qm) = (False, qm, [])"
| "skip_or_stop (Inr (Some x), qm) = (True, qm, [])"

fun play_next ::
  "nat \<Rightarrow> environment \<Rightarrow> int \<Rightarrow> queue_manager \<times> backend \<times> effect list \<Rightarrow>
   (queue_manager \<times> backend \<times> effect list) option" where
  "play_next 0 env chat_id st = None"
| "play_next (Suc n) env chat_id (qm, b, eff) =
     (case get_current qm chat_id of
        None \<Rightarrow> Some (qm, b, eff)
      | Some current_item \<Rightarrow>
          if \<not> path_exists env (file_path current_item) then
            (let (again, qm', e) = skip_or_stop (next_item qm chat_id);
                 eff' = eff @ [Log (LogFileNotFound (file_path current_item))] @ e
             in if again then play_next n env chat_id (qm', b, eff')
                else Some (qm', b, eff'))
          else
            (let (success, b', e1) =
                   play_media env b chat_id (file_path current_item) (is_video current_item)
                     ''medium''
             in if success
                then Some (qm, b', eff @ e1 @ [Log (LogNowPlaying (title current_item) chat_id)])
                else
                  (let (again, qm', e) = skip_or_stop (next_item qm chat_id);
                       eff' = eff @ e1 @ [Log (LogFailedToPlay (title current_item))] @ e
                   in if again then play_next n env chat_id (qm', b', eff')
                      else Some (qm', b', eff'))))"

text \<open>An entry that cannot be played in this environment and backend state.\<close>

definition unplayable :: "environment \<Rightarrow> backend \<Rightarrow> int \<Rightarrow> queue_item \<Rightarrow> bool" where
  "unplayable env b chat_id x =
     (\<not> path_exists env (file_path x) \<or>
      \<not> fst (play_media env b chat_id (file_path x) (is_video x) ''medium''))"

section \<open>Python strings and integers\<close>

text \<open>
  Strings are byte strings here, so the functions below are those of Python on ASCII
  text: \<open>str(n)\<close> on an \<open>int\<close>, \<open>int(s)\<close> on a \<open>str\<close> (white space stripped, one
  optional sign, decimal digits with single underscores between them, \<open>ValueError\<close>
  otherwise), \<open>s.lower()\<close>, \<open>x in s\<close>, \<open>s.startswith(x)\<close> and \<open>s.endswith(x)\<close>.
\<close>

definition digit_char :: "nat \<Rightarrow> char" where
  "digit_char d = char_of (48 + d)"

definition is_digit :: "char \<Rightarrow> bool" where
  "is_digit c = (48 \<le> (of_char c :: nat) \<and> (of_char c :: nat) \<le> 57)"

definition digit_val :: "char \<Rightarrow> nat" where
  "digit_val c = of_char c - 48"

definition is_space :: "char \<Rightarrow> bool" where
  "is_space c = ((9 \<le> (of_char c :: nat) \<and> (of_char c :: nat) \<le> 13) \<or>
                 (of_char c :: nat) = 32)"

function str_nat :: "nat \<Rightarrow> string" where
  "str_nat n = (if n < 10 then [digit_char n] else str_nat (n div 10) @ [digit_char (n mod 10)])"
  by pat_completeness auto
termination
  by (relation "measure id") auto

declare str_nat.simps [simp del]

definition py_str :: "int \<Rightarrow> string" where
  "py_str i = (if i < 0 then CHR ''-'' # str_nat (nat (- i)) else str_nat (nat i))"

text \<open>
  The digits of \<open>int(s)\<close>: \<open>acc\<close> is the value read so far, \<open>after_digit\<close> says that the
  character before was a digit (an underscore is legal only between two digits).
\<close>

fun parse_digits :: "string \<Rightarrow> nat \<Rightarrow> bool \<Rightarrow> nat option" where
  "parse_digits [] acc after_digit = (if after_digit then Some acc else None)"
| "parse_digits (c # cs) acc after_digit =
     (if is_digit c then parse_digits cs (10 * acc + digit_val c) True
      else if c = CHR ''_'' \<and> after_digit \<and> cs \<noteq> [] then parse_digits cs acc False
      else None)"

definition py_strip :: "string \<Rightarrow> string" where
  "py_strip s = rev (dropWhile is_space (rev (dropWhile is_space s)))"

definition py_int :: "string \<Rightarrow> py_error + int" where
  "py_int s =
     (case py_strip s of
        [] \<Rightarrow> Inl ValueError
      | c # cs \<Rightarrow>
          if c = CHR ''-'' then
            (case parse_digits cs 0 False of None \<Rightarrow> Inl ValueError | Some n \<Rightarrow> Inr (- int n))
          else if c = CHR ''+'' then
            (case parse_digits cs 0 False of None \<Rightarrow> Inl ValueError | Some n \<Rightarrow> Inr (int n))
          else
            (case parse_digits (c # cs) 0 False of
               None \<Rightarrow> Inl ValueError | Some n \<Rightarrow> Inr (int n)))"

definition lower_char :: "char \<Rightarrow> char" where
  "lower_char c =
     (case map_of (zip ''ABCDEFGHIJKLMNOPQRSTUVWXYZ'' ''abcdefghijklmnopqrstuvwxyz'') c of
        None \<Rightarrow> c
      | Some l \<Rightarrow> l)"

definition py_lower :: "string \<Rightarrow> string" where
  "py_lower s = map lower_char s"

definition starts_with :: "string \<Rightarrow> string \<Rightarrow> bool" where
  "starts_with s x = (take (length x) s = x)"

definition ends_with :: "string \<Rightarrow> string \<Rightarrow> bool" where
  "ends_with s x = (length x \<le> length s \<and> drop (length s - length x) s = x)"

fun py_in :: "string \<Rightarrow> string \<Rightarrow> bool" where
  "py_in x [] = (x = [])"
| "py_in x (c # cs) = (starts_with (c # cs) x \<or> py_in x cs)"

section \<open>TempFileManager\<close>

text \<open>The files on disk and the set \<open>_temp_files\<close> of the manager.\<close>

record temp_store =
  files :: "string set"
  temp_files :: "string set"

definition on_disk :: "temp_store \<Rightarrow> string \<Rightarrow> bool" where
  "on_disk ts path = (path \<noteq> [] \<and> path \<in> files ts)"

text \<open>
  \<open>create_temp_file\<close>: \<open>NamedTemporaryFile(suffix=suffix, delete=False)\<close> creates the file;
  \<open>stem\<close> is the part of its name that the operating system picks.
\<close>

definition create_temp_file :: "string \<Rightarrow> string \<Rightarrow> temp_store \<Rightarrow> string \<times> temp_store" where
  "create_temp_file stem suffix ts =
     (let temp_file = stem @ suffix
      in (temp_file, ts\<lparr>files := insert temp_file (files ts),
                         temp_files := insert temp_file (temp_files ts)\<rparr>))"

text \<open>
  \<open>cleanup_file\<close>: when \<open>os.unlink\<close> raises, the error is logged and the path stays in
  \<open>_temp_files\<close>.
\<close>

definition cleanup_file :: "bool \<Rightarrow> string \<Rightarrow> temp_store \<Rightarrow> temp_store" where
  "cleanup_file unlink_ok path ts =
     (if on_disk ts path then
        (if unlink_ok
         then ts\<lparr>files := files ts - {path}, temp_files := temp_files ts - {path}\<rparr>
         else ts)
      else ts\<lparr>temp_files := temp_files ts - {path}\<rparr>)"

section \<open>Source resolvers\<close>

text \<open>The \<open>except\<close> branch of a resolver: \<open>if temp_file and os.path.exists(temp_file)\<close>.\<close>

definition release_on_error :: "bool \<Rightarrow> string \<Rightarrow> temp_store \<Rightarrow> temp_store" where
  "release_on_error unlink_ok temp_file ts =
     (if on_disk ts temp_file then cleanup_file unlink_ok temp_file ts else ts)"

text \<open>The \<open>metadata\<close> dict of a resolve call, with the two keys the resolvers read.\<close>

record metadata =
  md_user_id :: "int option"
  md_title :: "string option"

definition added_by_of :: "metadata option \<Rightarrow> int" where
  "added_by_of md =
     (case md of
        None \<Rightarrow> 0
      | Some m \<Rightarrow> (case md_user_id m of None \<Rightarrow> 0 | Some u \<Rightarrow> u))"

subsection \<open>YouTubeSourceResolver\<close>

text \<open>
  What yt-dlp and the file system answer during one call: the two module flags, the name
  of the temporary file (or the exception of its creation), the result of
  \<open>extract_info\<close>, the result of \<open>download\<close> (on success the files that \<open>glob\<close> finds
  afterwards), and whether \<open>os.rename\<close> and \<open>os.unlink\<close> succeed. The \<open>duration\<close> field of
  the video information may be missing, \<open>None\<close> or a number.
\<close>

datatype yt_duration = NoDuration | NullDuration | Seconds int

record yt_info =
  info_title :: "string option"
  info_duration :: yt_duration

record yt_world =
  yt_dlp_available :: bool
  ffmpeg_available :: bool
  yt_alloc :: "py_error + string"
  yt_extract_info :: "py_error + yt_info"
  yt_download :: "py_error + string list"
  yt_rename :: "py_error option"
  yt_unlink_ok :: bool

definition youtube_item :: "string \<Rightarrow> string \<Rightarrow> int \<Rightarrow> metadata option \<Rightarrow> queue_item" where
  "youtube_item path t d md =
     \<lparr>file_path = path, title = t, duration = d, is_video = False,
      source_type = ''youtube'', added_by = added_by_of md, timestamp = 0\<rparr>"

definition resolve_youtube ::
  "yt_world \<Rightarrow> metadata option \<Rightarrow> temp_store \<Rightarrow> queue_item option \<times> temp_store" where
  "resolve_youtube w md ts =
     (if \<not> yt_dlp_available w then (None, ts)
      else if \<not> ffmpeg_available w then (None, ts)
      else case yt_alloc w of
        Inl e \<Rightarrow> (None, ts)
      | Inr stem \<Rightarrow>
          let (temp_file, ts1) = create_temp_file stem ''.mp3'' ts
          in case yt_extract_info w of
               Inl e \<Rightarrow> (None, release_on_error (yt_unlink_ok w) temp_file ts1)
             | Inr info \<Rightarrow>
                 let t = (case info_title info of None \<Rightarrow> ''Unknown'' | Some x \<Rightarrow> x)
                 in case info_duration info of
                      NullDuration \<Rightarrow> (None, release_on_error (yt_unlink_ok w) temp_file ts1)
                    | dur \<Rightarrow>
                        let d = (case dur of Seconds n \<Rightarrow> n | _ \<Rightarrow> 0)
                        in if d > 3600 then (None, ts1)
                           else case yt_download w of
                             Inl e \<Rightarrow> (None, release_on_error (yt_unlink_ok w) temp_file ts1)
                           | Inr found \<Rightarrow>
                               let ts2 = ts1\<lparr>files := files ts1 \<union> set found\<rparr>
                               in case found of
                                    [] \<Rightarrow> (Some (youtube_item temp_file t d md), ts2)
                                  | actual_file # _ \<Rightarrow>
                                      if ends_with actual_file ''.mp3''
                                      then (Some (youtube_item actual_file t d md), ts2)
                                      else case yt_rename w of
                                        Some e \<Rightarrow>
                                          (None,
                                           release_on_error (yt_unlink_ok w) temp_file ts2)
                                      | None \<Rightarrow>
                                          (Some (youtube_item temp_file t d md),
                                           ts2\<lparr>files := insert temp_file
                                                  (files ts2 - {actual_file})\<rparr>))"

subsection \<open>DirectURLSourceResolver\<close>

text \<open>
  What the HTTP client and the file system answer during one call: the exception of
  creating the session, if any; the response to \<open>HEAD\<close> (status and the two headers read)
  or its exception; the name of the temporary file; the response to \<open>GET\<close> (status, the
  lengths of the chunks of the body, and whether reading or writing the body raises) or
  its exception; and whether \<open>os.unlink\<close> succeeds.
\<close>

record http_head =
  head_status :: int
  head_content_length :: "string option"
  head_content_type :: "string option"

record http_get =
  get_status :: int
  get_chunks :: "nat list"
  get_fails :: bool

record url_world =
  url_session :: "py_error option"
  url_head :: "py_error + http_head"
  url_alloc :: "py_error + string"
  url_get :: "py_error + http_get"
  url_unlink_ok :: bool

text \<open>
  The size test of the \<open>HEAD\<close> phase, \<open>int(content_length) / (1024 * 1024) > 100\<close>. The
  division is a float division: it raises \<open>OverflowError\<close> when the quotient is beyond the
  floats, and otherwise the comparison is that of the integers, the division by a power
  of two being monotone and exact at the bound.
\<close>

definition size_too_large :: "string option \<Rightarrow> py_error + bool" where
  "size_too_large content_length =
     (case content_length of
        None \<Rightarrow> Inr False
      | Some s \<Rightarrow>
          if s = [] then Inr False
          else case py_int s of
            Inl e \<Rightarrow> Inl e
          | Inr n \<Rightarrow>
              if \<bar>n\<bar> \<ge> 2 ^ 1044 - 2 ^ 990 then Inl OverflowError
              else Inr (n > 100 * 1024 * 1024))"

text \<open>
  The \<open>HEAD\<close> phase either rejects the URL or yields the content type to go on with; any
  exception inside it is caught and the content type is then empty.
\<close>

datatype head_result = Rejected | ContentType string

definition head_phase :: "py_error + http_head \<Rightarrow> head_result" where
  "head_phase r =
     (case r of
        Inl e \<Rightarrow> ContentType []
      | Inr h \<Rightarrow>
          if head_status h \<noteq> 200 then Rejected
          else case size_too_large (head_content_length h) of
            Inl e \<Rightarrow> ContentType []
          | Inr True \<Rightarrow> Rejected
          | Inr False \<Rightarrow>
              ContentType (py_lower (case head_content_type h of None \<Rightarrow> [] | Some t \<Rightarrow> t)))"

definition url_suffix :: "string \<Rightarrow> string" where
  "url_suffix content_type =
     (if py_in ''audio'' content_type then
        (if py_in ''mp3'' content_type then ''.mp3''
         else if py_in ''ogg'' content_type then ''.ogg''
         else ''.m4a'')
      else if py_in ''video'' content_type then
        (if py_in ''mp4'' content_type then ''.mp4'' else ''.mkv'')
      else [])"

text \<open>The download loop: does the running total exceed \<open>max_size\<close> at some chunk?\<close>

fun exceeds_cap :: "nat \<Rightarrow> nat list \<Rightarrow> bool" where
  "exceeds_cap downloaded_size [] = False"
| "exceeds_cap downloaded_size (chunk # chunks) =
     (downloaded_size + chunk > 100 * 1024 * 1024 \<or>
      exceeds_cap (downloaded_size + chunk) chunks)"

definition url_title :: "metadata option \<Rightarrow> string \<Rightarrow> string" where
  "url_title md url =
     (case (case md of None \<Rightarrow> None | Some m \<Rightarrow> md_title m) of
        Some (c # cs) \<Rightarrow> c # cs
      | _ \<Rightarrow>
          let segment = rev (takeWhile (\<lambda>c. c \<noteq> CHR ''/'') (rev url));
              name = takeWhile (\<lambda>c. c \<noteq> CHR ''?'') segment
          in if name = [] \<or> name = ''/'' then ''Downloaded Media'' else name)"

definition url_item :: "string \<Rightarrow> string \<Rightarrow> bool \<Rightarrow> metadata option \<Rightarrow> queue_item" where
  "url_item path t video md =
     \<lparr>file_path = path, title = t, duration = 0, is_video = video,
      source_type = ''url'', added_by = added_by_of md, timestamp = 0\<rparr>"

definition resolve_url ::
  "url_world \<Rightarrow> metadata option \<Rightarrow> string \<Rightarrow> temp_store \<Rightarrow> queue_item option \<times> temp_store" where
  "resolve_url w md url ts =
     (case url_session w of
        Some e \<Rightarrow> (None, ts)
      | None \<Rightarrow>
          case head_phase (url_head w) of
            Rejected \<Rightarrow> (None, ts)
          | ContentType content_type \<Rightarrow>
              case url_alloc w of
                Inl e \<Rightarrow> (None, ts)
              | Inr stem \<Rightarrow>
                  let (temp_file, ts1) = create_temp_file stem (url_suffix content_type) ts
                  in case url_get w of
                       Inl e \<Rightarrow> (None, release_on_error (url_unlink_ok w) temp_file ts1)
                     | Inr response \<Rightarrow>
                         if get_status response = 200 then
                           (if exceeds_cap 0 (get_chunks response) \<or> get_fails response
                            then (None, release_on_error (url_unlink_ok w) temp_file ts1)
                            else (Some (url_item temp_file (url_title md url)
                                          (py_in ''video'' content_type) md), ts1))
                         else (None, ts1))"

section \<open>Persistence of the queues\<close>

text \<open>
  The values that the database stores: what \<open>save_queues\<close> hands to \<open>db.set\<close> and
  \<open>load_queues\<close> gets from \<open>db.get\<close>. A timestamp is a float, modelled as a real.
\<close>

datatype pyval =
    PNone
  | PBool bool
  | PInt int
  | PFloat real
  | PStr string
  | PList "pyval list"
  | PDict "(string \<times> pyval) list"

text \<open>\<open>to_dict\<close> is \<open>asdict(self)\<close>: the fields in the order of their declaration.\<close>

definition to_dict :: "queue_item \<Rightarrow> pyval" where
  "to_dict item =
     PDict [(''file_path'', PStr (file_path item)),
            (''title'', PStr (title item)),
            (''duration'', PInt (duration item)),
            (''is_video'', PBool (is_video item)),
            (''source_type'', PStr (source_type item)),
            (''added_by'', PInt (added_by item)),
            (''timestamp'', PFloat (timestamp item))]"

definition field_names :: "string list" where
  "field_names = [''file_path'', ''title'', ''duration'', ''is_video'', ''source_type'',
     ''added_by'', ''timestamp'']"

text \<open>
  The keyword arguments of \<open>cls(**data)\<close>: a missing argument takes the default of the
  field. The fields of the record are typed, so a value of another type, which the
  dataclass would store unchecked, is refused here with \<open>TypeError\<close>; \<open>to_dict\<close> never
  writes one.
\<close>

definition arg_str :: "pyval option \<Rightarrow> string \<Rightarrow> py_error + string" where
  "arg_str v dflt = (case v of None \<Rightarrow> Inr dflt | Some (PStr s) \<Rightarrow> Inr s | _ \<Rightarrow> Inl TypeError)"

definition arg_int :: "pyval option \<Rightarrow> int \<Rightarrow> py_error + int" where
  "arg_int v dflt = (case v of None \<Rightarrow> Inr dflt | Some (PInt i) \<Rightarrow> Inr i | _ \<Rightarrow> Inl TypeError)"

definition arg_bool :: "pyval option \<Rightarrow> bool \<Rightarrow> py_error + bool" where
  "arg_bool v dflt = (case v of None \<Rightarrow> Inr dflt | Some (PBool b) \<Rightarrow> Inr b | _ \<Rightarrow> Inl TypeError)"

definition arg_float :: "pyval option \<Rightarrow> real \<Rightarrow> py_error + real" where
  "arg_float v dflt =
     (case v of
        None \<Rightarrow> Inr dflt
      | Some (PFloat r) \<Rightarrow> Inr r
      | Some (PInt i) \<Rightarrow> Inr (of_int i)
      | _ \<Rightarrow> Inl TypeError)"

text \<open>
  \<open>from_dict\<close> is \<open>cls(**data)\<close>: \<open>data\<close> must be a mapping, a key that is no field and a
  missing \<open>file_path\<close> or \<open>title\<close> raise \<open>TypeError\<close>.
\<close>

definition from_dict :: "pyval \<Rightarrow> py_error + queue_item" where
  "from_dict data =
     (case data of
        PDict kvs \<Rightarrow>
          if \<exists>k \<in> set (map fst kvs). k \<notin> set field_names then Inl TypeError
          else if map_of kvs ''file_path'' = None \<or> map_of kvs ''title'' = None
          then Inl TypeError
          else
            (case (arg_str (map_of kvs ''file_path'') [],
                   arg_str (map_of kvs ''title'') [],
                   arg_int (map_of kvs ''duration'') 0,
                   arg_bool (map_of kvs ''is_video'') False,
                   arg_str (map_of kvs ''source_type'') ''unknown'',
                   arg_int (map_of kvs ''added_by'') 0,
                   arg_float (map_of kvs ''timestamp'') 0) of
               (Inr fp, Inr t, Inr d, Inr v, Inr s, Inr a, Inr ts) \<Rightarrow>
                 Inr \<lparr>file_path = fp, title = t, duration = d, is_video = v,
                      source_type = s, added_by = a, timestamp = ts\<rparr>
             | _ \<Rightarrow> Inl TypeError)
      | _ \<Rightarrow> Inl TypeError)"

text \<open>The record of one destination, as \<open>save_queues\<close> builds it.\<close>

definition queue_record :: "queue_manager \<Rightarrow> int \<Rightarrow> queue_item list \<Rightarrow> pyval" where
  "queue_record qm chat_id queue =
     PDict [(''items'', PList (map to_dict queue)),
            (''current'', PInt (dict_get (current_playing qm) chat_id 0)),
            (''repeat'', PBool (dict_get (repeat_mode qm) chat_id False))]"

text \<open>\<open>save_queues\<close>: the dict handed to \<open>db.set\<close>; only the non-empty queues are written.\<close>

definition save_queues :: "queue_manager \<Rightarrow> (string, pyval) dict" where
  "save_queues qm =
     fold (\<lambda>(chat_id, queue) data.
             if queue \<noteq> []
             then AList.update (py_str chat_id) (queue_record qm chat_id queue) data
             else data)
          (queues qm) []"

text \<open>One entry of the saved dict: the key \<open>str(chat_id)\<close> and the record of the queue.\<close>

definition saved_entry :: "queue_manager \<Rightarrow> int \<times> queue_item list \<Rightarrow> string \<times> pyval" where
  "saved_entry qm e = (py_str (fst e), queue_record qm (fst e) (snd e))"

text \<open>Iterating over a stored value, as the \<open>for\<close> of the list comprehension does.\<close>

definition py_iter :: "pyval \<Rightarrow> py_error + pyval list" where
  "py_iter v =
     (case v of
        PList xs \<Rightarrow> Inr xs
      | PDict kvs \<Rightarrow> Inr (map (\<lambda>kv. PStr (fst kv)) kvs)
      | PStr s \<Rightarrow> Inr (map (\<lambda>c. PStr [c]) s)
      | _ \<Rightarrow> Inl TypeError)"

fun items_from_dicts :: "pyval list \<Rightarrow> py_error + queue_item list" where
  "items_from_dicts [] = Inr []"
| "items_from_dicts (item_data # rest) =
     (case from_dict item_data of
        Inl e \<Rightarrow> Inl e
      | Inr item \<Rightarrow>
          (case items_from_dicts rest of Inl e \<Rightarrow> Inl e | Inr items \<Rightarrow> Inr (item # items)))"

text \<open>
  One round of the loop of \<open>load_queues\<close>. The result is the state after the round and
  the exception that ended it, if any; the three assignments are made one after the other.
  A \<open>current\<close> that is no integer and a \<open>repeat\<close> that is no boolean cannot be stored in
  the typed state and end the round with \<open>TypeError\<close>.
\<close>

definition load_entry ::
  "string \<Rightarrow> pyval \<Rightarrow> queue_manager \<Rightarrow> py_error option \<times> queue_manager" where
  "load_entry chat_id_str queue_data qm =
     (case py_int chat_id_str of
        Inl e \<Rightarrow> (Some e, qm)
      | Inr chat_id \<Rightarrow>
          (case queue_data of
             PDict kvs \<Rightarrow>
               (case py_iter (case map_of kvs ''items'' of None \<Rightarrow> PList [] | Some v \<Rightarrow> v) of
                  Inl e \<Rightarrow> (Some e, qm)
                | Inr dicts \<Rightarrow>
                    (case items_from_dicts dicts of
                       Inl e \<Rightarrow> (Some e, qm)
                     | Inr items \<Rightarrow>
                         let qm1 = qm\<lparr>queues := AList.update chat_id items (queues qm)\<rparr>
                         in case arg_int (map_of kvs ''current'') 0 of
                              Inl e \<Rightarrow> (Some e, qm1)
                            | Inr cur \<Rightarrow>
                                let qm2 = qm1\<lparr>current_playing :=
                                            AList.update chat_id cur (current_playing qm1)\<rparr>
                                in case arg_bool (map_of kvs ''repeat'') False of
                                     Inl e \<Rightarrow> (Some e, qm2)
                                   | Inr rep \<Rightarrow>
                                       (None,
                                        qm2\<lparr>repeat_mode :=
                                              AList.update chat_id rep (repeat_mode qm2)\<rparr>)))
           | _ \<Rightarrow> (Some AttributeError, qm)))"

text \<open>The loop: an exception ends it and is logged; what was loaded before stays.\<close>

fun load_entries :: "(string, pyval) dict \<Rightarrow> queue_manager \<Rightarrow> queue_manager" where
  "load_entries [] qm = qm"
| "load_entries ((chat_id_str, queue_data) # rest) qm =
     (case load_entry chat_id_str queue_data qm of
        (Some e, qm') \<Rightarrow> qm'
      | (None, qm') \<Rightarrow> load_entries rest qm')"

definition load_queues :: "pyval \<Rightarrow> queue_manager \<Rightarrow> queue_manager" where
  "load_queues data qm = (case data of PDict entries \<Rightarrow> load_entries entries qm | _ \<Rightarrow> qm)"

section \<open>The cursor invariant\<close>

text \<open>
  The invariant of the cursor restricted to non-empty queues: a non-empty queue has its
  cursor inside the queue.
\<close>

definition cursor_in_range :: "queue_manager \<Rightarrow> int \<Rightarrow> bool" where
  "cursor_in_range qm chat_id =
     (get_queue qm chat_id = [] \<or>
      (0 \<le> cursor qm chat_id \<and> cursor qm chat_id < int (length (get_queue qm chat_id))))"

text \<open>
  The invariant of the data model in full: the cursor of a non-empty queue is inside the
  queue, and the cursor of an empty queue is absent or 0.
\<close>

definition cursor_inv :: "queue_manager \<Rightarrow> int \<Rightarrow> bool" where
  "cursor_inv qm chat_id =
     (if get_queue qm chat_id = [] then cursor qm chat_id = 0
      else 0 \<le> cursor qm chat_id \<and> cursor qm chat_id < int (length (get_queue qm chat_id)))"

section \<open>Example states\<close>

definition qm_stale :: queue_manager where
  "qm_stale = \<lparr>queues = [], current_playing = [(1, 5)], repeat_mode = []\<rparr>"

definition item_a :: queue_item where
  "item_a = \<lparr>file_path = ''/tmp/a.mp3'', title = ''a'', duration = 0, is_video = False,
     source_type = ''url'', added_by = 0, timestamp = 0\<rparr>"

definition item_b :: queue_item where
  "item_b = \<lparr>file_path = ''/tmp/b.mp4'', title = ''b'', duration = 7, is_video = True,
     source_type = ''telegram'', added_by = 3, timestamp = 1\<rparr>"

definition qm_two :: queue_manager where
  "qm_two = \<lparr>queues = [(1, [item_a, item_b])], current_playing = [(1, 1)],
     repeat_mode = [(1, True)]\<rparr>"

definition backend_ready :: backend where
  "backend_ready = \<lparr>has_pytgcalls = True, is_initialized = True, active_calls = []\<rparr>"

definition env_ok :: environment where
  "env_ok = \<lparr>disk = {''/tmp/a.mp3'', ''/tmp/b.mp4''}, lib = (\<lambda>c. Returns),
     types_importable = True, clock = 100\<rparr>"

definition env_lib_down :: environment where
  "env_lib_down = \<lparr>disk = {''/tmp/a.mp3'', ''/tmp/b.mp4''}, lib = (\<lambda>c. RaisesOther),
     types_importable = True, clock = 100\<rparr>"

definition env_no_files :: environment where
  "env_no_files = \<lparr>disk = {}, lib = (\<lambda>c. Returns), types_importable = True, clock = 100\<rparr>"

definition qm_loop :: queue_manager where
  "qm_loop = \<lparr>queues = [(1, [item_a])], current_playing = [], repeat_mode = [(1, True)]\<rparr>"

definition backend_joined :: backend where
  "backend_joined = \<lparr>has_pytgcalls = True, is_initialized = True,
     active_calls = [(1, \<lparr>joined_at = 100, current_stream = Some ''/tmp/a.mp3'',
       is_paused = False\<rparr>)]\<rparr>"

definition empty_store :: temp_store where
  "empty_store = \<lparr>files = {}, temp_files = {}\<rparr>"

definition yt_too_long :: yt_world where
  "yt_too_long = \<lparr>yt_dlp_available = True, ffmpeg_available = True,
     yt_alloc = Inr ''/tmp/tmpq1'',
     yt_extract_info = Inr \<lparr>info_title = Some ''Long'', info_duration = Seconds 3601\<rparr>,
     yt_download = Inr [], yt_rename = None, yt_unlink_ok = True\<rparr>"

definition yt_probe_fails :: yt_world where
  "yt_probe_fails = \<lparr>yt_dlp_available = True, ffmpeg_available = True,
     yt_alloc = Inr ''/tmp/tmpq1'', yt_extract_info = Inl OtherError,
     yt_download = Inr [], yt_rename = None, yt_unlink_ok = True\<rparr>"

definition url_get_503 :: url_world where
  "url_get_503 = \<lparr>url_session = None,
     url_head = Inr \<lparr>head_status = 200, head_content_length = Some ''4096'',
       head_content_type = Some ''Audio/MPEG''\<rparr>,
     url_alloc = Inr ''/tmp/tmpq2'',
     url_get = Inr \<lparr>get_status = 503, get_chunks = [], get_fails = False\<rparr>,
     url_unlink_ok = True\<rparr>"

definition url_150mb :: url_world where
  "url_150mb = \<lparr>url_session = None,
     url_head = Inr \<lparr>head_status = 200, head_content_length = Some ''157286400'',
       head_content_type = Some ''audio/mp3''\<rparr>,
     url_alloc = Inr ''/tmp/tmpq3'',
     url_get = Inr \<lparr>get_status = 200, get_chunks = [8192], get_fails = False\<rparr>,
     url_unlink_ok = True\<rparr>"

definition qm_mixed :: queue_manager where
  "qm_mixed = \<lparr>queues = [(1, [item_a, item_b]), (2, [])], current_playing = [(1, 1)],
     repeat_mode = [(1, True), (2, True)]\<rparr>"

definition qm_past_end :: queue_manager where
  "qm_past_end = \<lparr>queues = [(1, [item_a, item_b])], current_playing = [(1, 5)],
     repeat_mode = []\<rparr>"

definition qm_negative :: queue_manager where
  "qm_negative = \<lparr>queues = [(1, [item_a, item_b])], current_playing = [(1, - 2)],
     repeat_mode = []\<rparr>"

section \<open>Dictionary lemmas\<close>

lemma dict_get_update [simp]:
  "dict_get (AList.update k v d) k' dflt = (if k' = k then v else dict_get d k' dflt)"
  by (simp add: dict_get_def update_conv')

lemma dict_get_delete [simp]:
  "dict_get (AList.delete k d) k' dflt = (if k' = k then dflt else dict_get d k' dflt)"
  by (simp add: dict_get_def delete_conv')

lemma dict_get_absent: "map_of d k = None \<Longrightarrow> dict_get d k dflt = dflt"
  by (simp add: dict_get_def)

section \<open>Queue operations\<close>

lemma py_index_in_range:
  "0 \<le> i \<Longrightarrow> i < int (length xs) \<Longrightarrow> py_index xs i = Inr (xs ! nat i)"
  by (simp add: py_index_def)

lemma get_queue_add_item:
  "get_queue (snd (add_item now qm d item)) d' =
     (if d' = d then get_queue qm d @ [item\<lparr>timestamp := now\<rparr>] else get_queue qm d')"
  by (simp add: add_item_def get_queue_def Let_def dict_get_absent)

lemma cursor_add_item: "cursor (snd (add_item now qm d item)) d' = cursor qm d'"
  by (simp add: add_item_def cursor_def Let_def)

lemma queues_next_item: "queues (snd (next_item qm d)) = queues qm"
  by (simp add: next_item_def Let_def split: sum.splits)

lemma get_queue_next_item: "get_queue (snd (next_item qm d)) d' = get_queue qm d'"
  by (simp add: get_queue_def queues_next_item)

lemma repeat_mode_next_item: "repeat_mode (snd (next_item qm d)) = repeat_mode qm"
  by (simp add: next_item_def Let_def split: sum.splits)

lemma cursor_next_item_other:
  "d' \<noteq> d \<Longrightarrow> cursor (snd (next_item qm d)) d' = cursor qm d'"
  by (simp add: next_item_def cursor_def Let_def split: sum.splits)

lemma next_item_step:
  assumes "get_queue qm d \<noteq> []" and "0 \<le> cursor qm d"
    and "cursor qm d + 1 < int (length (get_queue qm d))"
  shows "next_item qm d =
           (Inr (Some (get_queue qm d ! nat (cursor qm d + 1))),
            qm\<lparr>current_playing := AList.update d (cursor qm d + 1) (current_playing qm)\<rparr>)"
  using assms by (simp add: next_item_def Let_def cursor_def py_index_in_range)

lemma next_item_wrap:
  assumes "get_queue qm d \<noteq> []" and "int (length (get_queue qm d)) \<le> cursor qm d + 1"
    and "is_repeat_enabled qm d"
  shows "next_item qm d =
           (Inr (Some (get_queue qm d ! 0)),
            qm\<lparr>current_playing := AList.update d 0 (current_playing qm)\<rparr>)"
  using assms
  by (simp add: next_item_def Let_def cursor_def is_repeat_enabled_def py_index_in_range)

lemma next_item_end:
  assumes "int (length (get_queue qm d)) \<le> cursor qm d + 1" and "\<not> is_repeat_enabled qm d"
  shows "next_item qm d = (Inr None, qm)"
  using assms by (simp add: next_item_def Let_def cursor_def is_repeat_enabled_def)

lemma next_item_empty: "get_queue qm d = [] \<Longrightarrow> next_item qm d = (Inr None, qm)"
  by (simp add: next_item_def)

lemma next_item_before_end:
  assumes "get_queue qm d \<noteq> []"
    and "cursor qm d + 1 < int (length (get_queue qm d))"
  shows "next_item qm d =
           (case py_index (get_queue qm d) (cursor qm d + 1) of
              Inl e \<Rightarrow> Inl e
            | Inr x \<Rightarrow> Inr (Some x),
            qm\<lparr>current_playing := AList.update d (cursor qm d + 1) (current_playing qm)\<rparr>)"
  using assms by (simp add: next_item_def Let_def cursor_def split: sum.splits)

text \<open>
  C3, first as the specification has it: at the end of the queue without repeat,
  \<open>next_item\<close> leaves the cursor where it was, which is the last index only if the
  cursor was inside the queue. With two entries and a stored cursor 5 it returns \<open>None\<close>
  and the cursor stays 5.
\<close>

theorem next_item_past_end_counterexample:
  "get_queue qm_past_end 1 = [item_a, item_b] \<and> \<not> is_repeat_enabled qm_past_end 1 \<and>
   next_item qm_past_end 1 = (Inr None, qm_past_end) \<and>
   cursor (snd (next_item qm_past_end 1)) 1 = 5 \<and>
   cursor (snd (next_item qm_past_end 1)) 1 \<noteq> int (length (get_queue qm_past_end 1)) - 1"
  by (simp add: next_item_def qm_past_end_def get_queue_def cursor_def is_repeat_enabled_def
      dict_get_def)

text \<open>
  C3 as amended. On every destination with a non-empty queue of length \<open>N\<close> and stored
  cursor \<open>c\<close>: when \<open>c + 1 < N\<close>, \<open>next_item\<close> stores \<open>c + 1\<close> as the cursor and
  returns the entry at that index (a negative index is read from the end of the queue,
  and below \<open>-N\<close> the read raises \<open>IndexError\<close> after the cursor is stored); when
  \<open>c + 1\<close> is past the last index it stores 0 and returns the first entry if repeat is
  set, and otherwise returns \<open>None\<close> and leaves the whole state as it was, so that the
  cursor stays at \<open>N - 1\<close> if it was inside the queue. The queues are never changed.
\<close>

theorem next_item_advances:
  assumes "get_queue qm d \<noteq> []"
  shows "(cursor qm d + 1 < int (length (get_queue qm d)) \<longrightarrow>
            snd (next_item qm d) =
              qm\<lparr>current_playing := AList.update d (cursor qm d + 1) (current_playing qm)\<rparr> \<and>
            cursor (snd (next_item qm d)) d = cursor qm d + 1 \<and>
            (0 \<le> cursor qm d + 1 \<longrightarrow>
               fst (next_item qm d) = Inr (Some (get_queue qm d ! nat (cursor qm d + 1)))) \<and>
            (cursor qm d + 1 < 0 \<and> - int (length (get_queue qm d)) \<le> cursor qm d + 1 \<longrightarrow>
               fst (next_item qm d) =
                 Inr (Some (get_queue qm d !
                   nat (int (length (get_queue qm d)) + (cursor qm d + 1))))) \<and>
            (cursor qm d + 1 < - int (length (get_queue qm d)) \<longrightarrow>
               fst (next_item qm d) = Inl IndexError)) \<and>
         (int (length (get_queue qm d)) \<le> cursor qm d + 1 \<and> is_repeat_enabled qm d \<longrightarrow>
            fst (next_item qm d) = Inr (Some (get_queue qm d ! 0)) \<and>
            cursor (snd (next_item qm d)) d = 0) \<and>
         (int (length (get_queue qm d)) \<le> cursor qm d + 1 \<and> \<not> is_repeat_enabled qm d \<longrightarrow>
            next_item qm d = (Inr None, qm)) \<and>
         (int (length (get_queue qm d)) \<le> cursor qm d + 1 \<and> \<not> is_repeat_enabled qm d \<and>
          cursor qm d < int (length (get_queue qm d)) \<longrightarrow>
            cursor (snd (next_item qm d)) d = int (length (get_queue qm d)) - 1) \<and>
         get_queue (snd (next_item qm d)) d = get_queue qm d \<and>
         queues (snd (next_item qm d)) = queues qm"
proof -
  have step: "cursor qm d + 1 < int (length (get_queue qm d)) \<longrightarrow>
            snd (next_item qm d) =
              qm\<lparr>current_playing := AList.update d (cursor qm d + 1) (current_playing qm)\<rparr> \<and>
            cursor (snd (next_item qm d)) d = cursor qm d + 1 \<and>
            (0 \<le> cursor qm d + 1 \<longrightarrow>
               fst (next_item qm d) = Inr (Some (get_queue qm d ! nat (cursor qm d + 1)))) \<and>
            (cursor qm d + 1 < 0 \<and> - int (length (get_queue qm d)) \<le> cursor qm d + 1 \<longrightarrow>
               fst (next_item qm d) =
                 Inr (Some (get_queue qm d !
                   nat (int (length (get_queue qm d)) + (cursor qm d + 1))))) \<and>
            (cursor qm d + 1 < - int (length (get_queue qm d)) \<longrightarrow>
               fst (next_item qm d) = Inl IndexError)"
  proof
    assume lt: "cursor qm d + 1 < int (length (get_queue qm d))"
    note n = next_item_before_end [OF assms lt]
    show "snd (next_item qm d) =
              qm\<lparr>current_playing := AList.update d (cursor qm d + 1) (current_playing qm)\<rparr> \<and>
            cursor (snd (next_item qm d)) d = cursor qm d + 1 \<and>
            (0 \<le> cursor qm d + 1 \<longrightarrow>
               fst (next_item qm d) = Inr (Some (get_queue qm d ! nat (cursor qm d + 1)))) \<and>
            (cursor qm d + 1 < 0 \<and> - int (length (get_queue qm d)) \<le> cursor qm d + 1 \<longrightarrow>
               fst (next_item qm d) =
                 Inr (Some (get_queue qm d !
                   nat (int (length (get_queue qm d)) + (cursor qm d + 1))))) \<and>
            (cursor qm d + 1 < - int (length (get_queue qm d)) \<longrightarrow>
               fst (next_item qm d) = Inl IndexError)"
      unfolding n using lt by (simp add: py_index_def cursor_def)
  qed
  have wrap: "int (length (get_queue qm d)) \<le> cursor qm d + 1 \<and> is_repeat_enabled qm d \<longrightarrow>
            fst (next_item qm d) = Inr (Some (get_queue qm d ! 0)) \<and>
            cursor (snd (next_item qm d)) d = 0"
    using next_item_wrap [OF assms] by (simp add: cursor_def)
  have fin: "int (length (get_queue qm d)) \<le> cursor qm d + 1 \<and> \<not> is_repeat_enabled qm d \<longrightarrow>
            next_item qm d = (Inr None, qm)"
    using next_item_end [of qm d] by simp
  have last: "int (length (get_queue qm d)) \<le> cursor qm d + 1 \<and> \<not> is_repeat_enabled qm d \<and>
          cursor qm d < int (length (get_queue qm d)) \<longrightarrow>
            cursor (snd (next_item qm d)) d = int (length (get_queue qm d)) - 1"
    using next_item_end [of qm d] by auto
  have keep: "queues (snd (next_item qm d)) = queues qm"
    by (rule queues_next_item)
  have keep': "get_queue (snd (next_item qm d)) d = get_queue qm d"
    by (rule get_queue_next_item)
  from step wrap fin last keep keep' show ?thesis
    by blast
qed

theorem next_item_advances_witness:
  "get_queue qm_two 1 \<noteq> [] \<and>
   int (length (get_queue qm_two 1)) \<le> cursor qm_two 1 + 1 \<and> is_repeat_enabled qm_two 1 \<and>
   fst (next_item qm_two 1) = Inr (Some item_a) \<and> cursor (snd (next_item qm_two 1)) 1 = 0 \<and>
   get_queue qm_negative 1 \<noteq> [] \<and>
   cursor qm_negative 1 + 1 < 0 \<and>
   - int (length (get_queue qm_negative 1)) \<le> cursor qm_negative 1 + 1 \<and>
   fst (next_item qm_negative 1) = Inr (Some item_b) \<and>
   cursor (snd (next_item qm_negative 1)) 1 = - 1"
proof -
  have h1: "get_queue qm_two 1 \<noteq> []"
    by (simp add: get_queue_def qm_two_def dict_get_def)
  have h2: "get_queue qm_negative 1 \<noteq> []"
    by (simp add: get_queue_def qm_negative_def dict_get_def)
  have a: "fst (next_item qm_two 1) = Inr (Some item_a) \<and> cursor (snd (next_item qm_two 1)) 1 = 0"
    using next_item_advances [OF h1]
    by (simp add: get_queue_def cursor_def qm_two_def dict_get_def is_repeat_enabled_def)
  have b: "fst (next_item qm_negative 1) = Inr (Some item_b) \<and>
      cursor (snd (next_item qm_negative 1)) 1 = - 1"
    using next_item_advances [OF h2]
    by (simp add: get_queue_def cursor_def qm_negative_def dict_get_def)
  from a b h1 h2 show ?thesis
    by (simp add: get_queue_def cursor_def qm_two_def qm_negative_def dict_get_def
        is_repeat_enabled_def)
qed

text \<open>
  C4, first as the specification has it: \<open>clear_queue\<close> does not drop the repeat flag. After
  clearing destination 1 of \<open>qm_two\<close> the flag is still stored and still set.
\<close>

theorem clear_queue_keeps_repeat_counterexample:
  "map_of (repeat_mode (clear_queue qm_two 1)) 1 \<noteq> None \<and>
   is_repeat_enabled (clear_queue qm_two 1) 1"
  by (simp add: clear_queue_def qm_two_def is_repeat_enabled_def dict_get_def)

text \<open>
  C4 as amended: \<open>clear_queue\<close> removes the queue and the cursor of the destination, so
  \<open>get_current\<close> returns \<open>None\<close> afterwards whatever the state was; the repeat flags are
  left as they were.
\<close>

theorem clear_queue_drops:
  "map_of (queues (clear_queue qm d)) d = None \<and>
   map_of (current_playing (clear_queue qm d)) d = None \<and>
   get_queue (clear_queue qm d) d = [] \<and>
   cursor (clear_queue qm d) d = 0 \<and>
   get_current (clear_queue qm d) d = None \<and>
   repeat_mode (clear_queue qm d) = repeat_mode qm \<and>
   is_repeat_enabled (clear_queue qm d) d = is_repeat_enabled qm d"
  by (simp add: clear_queue_def get_queue_def cursor_def get_current_def
      is_repeat_enabled_def delete_conv')

text \<open>
  C8, first as the specification has it: the invariant that only speaks of non-empty queues is not
  kept by \<open>add_item\<close>. A destination with no queue and a stored cursor 5 satisfies it, and
  after one append the queue has one entry and the cursor is still 5.
\<close>

theorem cursor_in_range_append_counterexample:
  "cursor_in_range qm_stale 1 \<and> \<not> cursor_in_range (snd (add_item 0 qm_stale 1 item_a)) 1"
  by (simp add: cursor_in_range_def qm_stale_def add_item_def get_queue_def cursor_def
      dict_get_def Let_def)

lemma cursor_inv_new: "cursor_inv new_queue_manager d"
  by (simp add: cursor_inv_def new_queue_manager_def get_queue_def cursor_def dict_get_def)

lemma cursor_inv_imp_in_range: "cursor_inv qm d \<Longrightarrow> cursor_in_range qm d"
  by (simp add: cursor_inv_def cursor_in_range_def split: if_splits)

lemma cursor_inv_add_item:
  "cursor_inv qm d' \<Longrightarrow> cursor_inv (snd (add_item now qm d item)) d'"
  by (auto simp add: cursor_inv_def get_queue_add_item cursor_add_item split: if_splits)

lemma cursor_inv_next_item:
  assumes "cursor_inv qm d'"
  shows "cursor_inv (snd (next_item qm d)) d'"
proof (cases "d' = d")
  case False
  with assms show ?thesis
    by (simp add: cursor_inv_def cursor_next_item_other get_queue_next_item)
next
  case True
  show ?thesis
  proof (cases "get_queue qm d = []")
    case True
    with assms \<open>d' = d\<close> show ?thesis by (simp add: next_item_empty)
  next
    case ne: False
    with assms \<open>d' = d\<close> have c0: "0 \<le> cursor qm d"
      and cN: "cursor qm d < int (length (get_queue qm d))"
      by (simp_all add: cursor_inv_def)
    consider (step) "cursor qm d + 1 < int (length (get_queue qm d))"
      | (wrap) "int (length (get_queue qm d)) \<le> cursor qm d + 1" "is_repeat_enabled qm d"
      | (fin) "int (length (get_queue qm d)) \<le> cursor qm d + 1" "\<not> is_repeat_enabled qm d"
      by linarith
    then show ?thesis
    proof cases
      case step
      from next_item_step [OF ne c0 step] ne c0 step \<open>d' = d\<close> show ?thesis
        by (simp add: cursor_inv_def get_queue_def cursor_def)
    next
      case wrap
      from next_item_wrap [OF ne wrap] ne \<open>d' = d\<close> show ?thesis
        by (simp add: cursor_inv_def get_queue_def cursor_def)
    next
      case fin
      from next_item_end [OF fin] assms show ?thesis by simp
    qed
  qed
qed

lemma get_queue_clear_queue:
  "get_queue (clear_queue qm d) d' = (if d' = d then [] else get_queue qm d')"
  by (simp add: clear_queue_def get_queue_def)

lemma cursor_clear_queue:
  "cursor (clear_queue qm d) d' = (if d' = d then 0 else cursor qm d')"
  by (simp add: clear_queue_def cursor_def)

lemma cursor_inv_clear_queue:
  "cursor_inv qm d' \<Longrightarrow> cursor_inv (clear_queue qm d) d'"
  by (simp add: cursor_inv_def get_queue_clear_queue cursor_clear_queue)

lemma cursor_inv_set_repeat:
  "cursor_inv qm d' \<Longrightarrow> cursor_inv (set_repeat qm d b) d'"
  by (simp add: cursor_inv_def set_repeat_def get_queue_def cursor_def cong: if_cong)

text \<open>
  C8 as amended: the invariant of the data model in full (cursor inside a non-empty queue,
  cursor absent or 0 for an empty queue) holds of a new manager and is kept, for every
  destination, by \<open>add_item\<close>, \<open>next_item\<close> and \<open>clear_queue\<close> on any destination;
  \<open>get_current\<close> changes no state. The restricted invariant follows from it.
\<close>

theorem cursor_inv_preserved:
  assumes "cursor_inv qm d'"
  shows "cursor_inv (snd (add_item now qm d item)) d' \<and>
         cursor_inv (snd (next_item qm d)) d' \<and>
         cursor_inv (clear_queue qm d) d' \<and>
         cursor_in_range (snd (add_item now qm d item)) d' \<and>
         cursor_in_range (snd (next_item qm d)) d' \<and>
         cursor_in_range (clear_queue qm d) d'"
  using assms
  by (simp add: cursor_inv_add_item cursor_inv_next_item cursor_inv_clear_queue
      cursor_inv_imp_in_range)

theorem cursor_inv_preserved_witness:
  "cursor_inv qm_two 1 \<and>
   cursor_inv (snd (add_item 0 qm_two 1 item_a)) 1 \<and>
   cursor_inv (snd (next_item qm_two 1)) 1 \<and>
   cursor_inv (clear_queue qm_two 1) 1"
proof -
  have h: "cursor_inv qm_two 1"
    by (simp add: cursor_inv_def get_queue_def cursor_def qm_two_def dict_get_def)
  show ?thesis
    using cursor_inv_preserved [OF h, of 0 1 item_a] h by simp
qed




text \<open>
  C10. \<open>set_repeat\<close> stores the flag of the destination, so \<open>is_repeat_enabled\<close> returns
  it; the queues and cursors of all destinations and the flags of the other destinations
  are unchanged.
\<close>

theorem set_repeat_frame:
  "is_repeat_enabled (set_repeat qm d b) d = b \<and>
   queues (set_repeat qm d b) = queues qm \<and>
   current_playing (set_repeat qm d b) = current_playing qm \<and>
   (\<forall>d'. get_queue (set_repeat qm d b) d' = get_queue qm d' \<and>
         cursor (set_repeat qm d b) d' = cursor qm d' \<and>
         get_current (set_repeat qm d b) d' = get_current qm d' \<and>
         (d' \<noteq> d \<longrightarrow> is_repeat_enabled (set_repeat qm d b) d' = is_repeat_enabled qm d'))"
  by (simp add: set_repeat_def is_repeat_enabled_def get_queue_def cursor_def get_current_def)

theorem set_repeat_frame_witness:
  "is_repeat_enabled (set_repeat qm_two 2 True) 2 \<and> (1::int) \<noteq> 2 \<and>
   is_repeat_enabled (set_repeat qm_two 2 True) 1 = is_repeat_enabled qm_two 1 \<and>
   get_queue (set_repeat qm_two 2 True) 1 = [item_a, item_b] \<and>
   cursor (set_repeat qm_two 2 True) 1 = 1"
  using set_repeat_frame [of qm_two 2 True]
  by (simp add: qm_two_def get_queue_def cursor_def dict_get_def)

section \<open>The streaming backend\<close>






lemma play_media_failure_keeps_backend:
  "\<not> fst (play_media env b d p v q) \<Longrightarrow> fst (snd (play_media env b d p v q)) = b"
  by (simp add: play_media_def Let_def split: if_splits prod.splits lib_outcome.splits)








lemma leave_voice_chat_absent:
  "map_of (active_calls b) d = None \<Longrightarrow> leave_voice_chat env b d = (True, b, [])"
  by (simp add: leave_voice_chat_def)

lemma leave_voice_chat_present:
  "map_of (active_calls b) d \<noteq> None \<Longrightarrow>
   fst (leave_voice_chat env b d) \<and>
   fst (snd (leave_voice_chat env b d)) =
     b\<lparr>active_calls := AList.delete d (active_calls b)\<rparr>"
  by (auto simp add: leave_voice_chat_def Let_def split: prod.splits)

lemma stop_stream_absent:
  "map_of (active_calls b) d = None \<Longrightarrow> stop_stream env b d = (False, b, [])"
  by (simp add: stop_stream_def)

lemma stop_stream_present:
  "map_of (active_calls b) d \<noteq> None \<Longrightarrow>
   fst (stop_stream env b d) \<and>
   fst (snd (stop_stream env b d)) = fst (snd (leave_voice_chat env b d))"
  by (auto simp add: stop_stream_def Let_def split: prod.splits)

text \<open>
  C6, first as the specification has it: on a destination with no entry in
  \<open>active_calls\<close>, \<open>stop_stream\<close> returns \<open>False\<close> and \<open>leave_voice_chat\<close> returns
  \<open>True\<close>.
\<close>

theorem stop_stream_not_joined_counterexample:
  "map_of (active_calls backend_ready) 1 = None \<and>
   fst (stop_stream env_ok backend_ready 1) \<noteq> fst (leave_voice_chat env_ok backend_ready 1)"
  by (simp add: stop_stream_def leave_voice_chat_def backend_ready_def)

text \<open>
  C6 as amended. For a destination with an entry in \<open>active_calls\<close>, \<open>stop_stream\<close>
  returns the same result as \<open>leave_voice_chat\<close>, which is success; for a destination
  with no entry \<open>stop_stream\<close> fails and \<open>leave_voice_chat\<close> succeeds, both leaving
  the state as it was. In every case the two leave the same state, \<open>leave_voice_chat\<close>
  succeeds whatever the library answers, and the destination has no entry afterwards.
\<close>

theorem stop_stream_vs_leave:
  "(map_of (active_calls b) d \<noteq> None \<longrightarrow>
      fst (stop_stream env b d) = fst (leave_voice_chat env b d) \<and>
      fst (stop_stream env b d)) \<and>
   (map_of (active_calls b) d = None \<longrightarrow>
      stop_stream env b d = (False, b, []) \<and> leave_voice_chat env b d = (True, b, [])) \<and>
   fst (snd (stop_stream env b d)) = fst (snd (leave_voice_chat env b d)) \<and>
   fst (leave_voice_chat env b d) \<and>
   map_of (active_calls (fst (snd (leave_voice_chat env b d)))) d = None"
proof (cases "map_of (active_calls b) d = None")
  case True
  then show ?thesis
    by (simp add: leave_voice_chat_absent stop_stream_absent)
next
  case False
  from leave_voice_chat_present [OF False, of env] stop_stream_present [OF False, of env] False
  show ?thesis
    by (auto simp add: delete_conv')
qed

theorem stop_stream_vs_leave_witness:
  "map_of (active_calls backend_joined) 1 \<noteq> None \<and>
   lib env_lib_down (LeaveGroupCall 1) = RaisesOther \<and>
   fst (stop_stream env_lib_down backend_joined 1) \<and>
   fst (leave_voice_chat env_lib_down backend_joined 1) \<and>
   fst (snd (stop_stream env_lib_down backend_joined 1)) = backend_ready \<and>
   fst (snd (leave_voice_chat env_lib_down backend_joined 1)) = backend_ready"
proof -
  have h: "map_of (active_calls backend_joined) 1 \<noteq> None"
    by (simp add: backend_joined_def)
  have l: "fst (snd (leave_voice_chat env_lib_down backend_joined 1)) = backend_ready"
    by (simp add: leave_voice_chat_def call_lib_def backend_joined_def backend_ready_def
        env_lib_down_def)
  show ?thesis
    using stop_stream_vs_leave [of backend_joined 1 env_lib_down] h l
    by (simp add: env_lib_down_def)
qed

section \<open>Playing the next entry\<close>

lemma get_current_in_range:
  assumes "get_queue qm d \<noteq> []" and "cursor_inv qm d"
  shows "get_current qm d = Some (get_queue qm d ! nat (cursor qm d))"
  using assms by (simp add: get_current_def cursor_inv_def cursor_def Let_def)

lemma current_in_queue:
  assumes "get_queue qm d \<noteq> []" and "cursor_inv qm d"
  shows "get_queue qm d ! nat (cursor qm d) \<in> set (get_queue qm d)"
proof -
  from assms have "nat (cursor qm d) < length (get_queue qm d)"
    by (simp add: cursor_inv_def nat_less_iff)
  then show ?thesis by (rule nth_mem)
qed

lemma next_item_with_repeat:
  assumes "get_queue qm d \<noteq> []" and "cursor_inv qm d" and "is_repeat_enabled qm d"
  shows "\<exists>x. next_item qm d = (Inr (Some x), snd (next_item qm d))"
proof (cases "cursor qm d + 1 < int (length (get_queue qm d))")
  case True
  from assms have "0 \<le> cursor qm d" by (simp add: cursor_inv_def)
  from next_item_step [OF assms(1) this True] show ?thesis by simp
next
  case False
  then have "int (length (get_queue qm d)) \<le> cursor qm d + 1" by simp
  from next_item_wrap [OF assms(1) this assms(3)] show ?thesis by simp
qed

lemma is_repeat_enabled_next_item:
  "is_repeat_enabled (snd (next_item qm d)) d' = is_repeat_enabled qm d'"
  by (simp add: is_repeat_enabled_def repeat_mode_next_item)

lemma play_next_skips:
  assumes cur: "get_current qm d = Some x"
    and bad: "unplayable env b d x"
    and nxt: "next_item qm d = (Inr (Some y), qm')"
  shows "\<exists>eff'. play_next (Suc n) env d (qm, b, eff) = play_next n env d (qm', b, eff')"
proof (cases "path_exists env (file_path x)")
  case False
  with cur nxt show ?thesis by auto
next
  case True
  with bad have f: "\<not> fst (play_media env b d (file_path x) (is_video x) ''medium'')"
    by (simp add: unplayable_def)
  then have "fst (snd (play_media env b d (file_path x) (is_video x) ''medium'')) = b"
    by (rule play_media_failure_keeps_backend)
  with f obtain e1 where
    "play_media env b d (file_path x) (is_video x) ''medium'' = (False, b, e1)"
    by (cases "play_media env b d (file_path x) (is_video x) ''medium''") auto
  with cur nxt True show ?thesis by auto
qed

text \<open>
  C1. With repeat enabled, a non-empty queue, the cursor inside it, and no entry that can
  be played (file missing, or \<open>play_media\<close> failing), \<open>_play_next\<close> does not return
  within any depth of recursion: after the last entry \<open>next_item\<close> wraps to the first and
  the retries go on. The retries are not bounded by the length of the queue.
\<close>

theorem play_next_repeat_never_returns:
  assumes "is_repeat_enabled qm d" and "get_queue qm d \<noteq> []" and "cursor_inv qm d"
    and "\<forall>x \<in> set (get_queue qm d). unplayable env b d x"
  shows "play_next n env d (qm, b, eff) = None"
  using assms
proof (induction n arbitrary: qm eff)
  case 0
  show ?case by simp
next
  case (Suc n)
  let ?x = "get_queue qm d ! nat (cursor qm d)"
  let ?qm' = "snd (next_item qm d)"
  have cur: "get_current qm d = Some ?x"
    using Suc.prems(2,3) by (rule get_current_in_range)
  have "?x \<in> set (get_queue qm d)"
    using Suc.prems(2,3) by (rule current_in_queue)
  with Suc.prems(4) have bad: "unplayable env b d ?x" by blast
  from next_item_with_repeat [OF Suc.prems(2,3,1)]
  obtain y where nxt: "next_item qm d = (Inr (Some y), ?qm')" by blast
  from play_next_skips [OF cur bad nxt] obtain eff' where
    step: "play_next (Suc n) env d (qm, b, eff) = play_next n env d (?qm', b, eff')"
    by blast
  have q: "get_queue ?qm' d = get_queue qm d"
    by (rule get_queue_next_item)
  have "play_next n env d (?qm', b, eff') = None"
  proof (rule Suc.IH)
    show "is_repeat_enabled ?qm' d"
      using Suc.prems(1) by (simp add: is_repeat_enabled_next_item)
    show "get_queue ?qm' d \<noteq> []"
      using Suc.prems(2) by (simp add: q)
    show "cursor_inv ?qm' d"
      using Suc.prems(3) by (rule cursor_inv_next_item)
    show "\<forall>x \<in> set (get_queue ?qm' d). unplayable env b d x"
      using Suc.prems(4) by (simp add: q)
  qed
  with step show ?case by simp
qed

theorem play_next_repeat_never_returns_witness:
  "is_repeat_enabled qm_loop 1 \<and> get_queue qm_loop 1 = [item_a] \<and> cursor_inv qm_loop 1 \<and>
   unplayable env_no_files backend_ready 1 item_a \<and>
   play_next 1000 env_no_files 1 (qm_loop, backend_ready, []) = None"
proof -
  have h1: "is_repeat_enabled qm_loop 1"
    by (simp add: is_repeat_enabled_def qm_loop_def dict_get_def)
  have q: "get_queue qm_loop 1 = [item_a]"
    by (simp add: get_queue_def qm_loop_def dict_get_def)
  then have h2: "get_queue qm_loop 1 \<noteq> []" by simp
  have h3: "cursor_inv qm_loop 1"
    by (simp add: cursor_inv_def q cursor_def qm_loop_def dict_get_def)
  have u: "unplayable env_no_files backend_ready 1 item_a"
    by (simp add: unplayable_def path_exists_def env_no_files_def)
  then have h4: "\<forall>x \<in> set (get_queue qm_loop 1). unplayable env_no_files backend_ready 1 x"
    by (simp add: q)
  show ?thesis
    using play_next_repeat_never_returns [OF h1 h2 h3 h4, of 1000 "[]"] h1 q h3 u by simp
qed

text \<open>
  Without repeat the recursion ends by itself: \<open>next_item\<close> returns \<open>None\<close> after the
  last entry, so a depth of one more than the entries from the cursor on is enough.
\<close>

lemma play_next_returns_without_repeat:
  assumes "\<not> is_repeat_enabled qm d" and "cursor_inv qm d"
    and "k = length (get_queue qm d) - nat (cursor qm d)"
  shows "\<exists>st. play_next (Suc k) env d (qm, b, eff) = Some st"
  using assms
proof (induction k arbitrary: qm b eff)
  case 0
  show ?case
  proof (cases "get_queue qm d = []")
    case True
    then have "get_current qm d = None"
      by (simp add: get_current_def)
    then show ?thesis by simp
  next
    case False
    with "0.prems"(2) have "nat (cursor qm d) < length (get_queue qm d)"
      by (simp add: cursor_inv_def nat_less_iff)
    with "0.prems"(3) have "False" by simp
    then show ?thesis ..
  qed
next
  case (Suc k)
  then have ne: "get_queue qm d \<noteq> []" by auto
  let ?x = "get_queue qm d ! nat (cursor qm d)"
  have cur: "get_current qm d = Some ?x"
    using ne Suc.prems(2) by (rule get_current_in_range)
  have c0: "0 \<le> cursor qm d" and cN: "cursor qm d < int (length (get_queue qm d))"
    using ne Suc.prems(2) by (simp_all add: cursor_inv_def)
  have after: "\<exists>st. (let (again, qm', e) = skip_or_stop (next_item qm d);
                           eff' = eff0 @ e
                       in if again then play_next (Suc k) env d (qm', b0, eff')
                          else Some (qm', b0, eff')) = Some st" for b0 eff0
  proof (cases "cursor qm d + 1 < int (length (get_queue qm d))")
    case True
    let ?qm' = "qm\<lparr>current_playing := AList.update d (cursor qm d + 1) (current_playing qm)\<rparr>"
    have n: "next_item qm d = (Inr (Some (get_queue qm d ! nat (cursor qm d + 1))), ?qm')"
      using ne c0 True by (rule next_item_step)
    have qm': "?qm' = snd (next_item qm d)" by (simp add: n)
    have k: "k = length (get_queue ?qm' d) - nat (cursor ?qm' d)"
      using Suc.prems(3) c0 True by (simp add: get_queue_def cursor_def nat_add_distrib)
    have "\<exists>st. play_next (Suc k) env d (?qm', b0, eff0) = Some st"
    proof (rule Suc.IH)
      show "\<not> is_repeat_enabled ?qm' d"
        using Suc.prems(1) by (simp add: is_repeat_enabled_def)
      show "cursor_inv ?qm' d"
        unfolding qm' using Suc.prems(2) by (rule cursor_inv_next_item)
      show "k = length (get_queue ?qm' d) - nat (cursor ?qm' d)" by (rule k)
    qed
    with n show ?thesis by simp
  next
    case False
    then have "int (length (get_queue qm d)) \<le> cursor qm d + 1" by simp
    from next_item_end [OF this Suc.prems(1)] show ?thesis by simp
  qed
  show ?case
  proof (cases "path_exists env (file_path ?x)")
    case False
    with cur after [of "eff @ [Log (LogFileNotFound (file_path ?x))]" b] show ?thesis
      by (simp add: Let_def split: prod.splits)
  next
    case True
    obtain ok b' e1 where
      pm: "play_media env b d (file_path ?x) (is_video ?x) ''medium'' = (ok, b', e1)"
      by (cases "play_media env b d (file_path ?x) (is_video ?x) ''medium''") auto
    show ?thesis
    proof (cases ok)
      case True
      with cur \<open>path_exists env (file_path ?x)\<close> pm show ?thesis by simp
    next
      case False
      with cur \<open>path_exists env (file_path ?x)\<close> pm
        after [of "eff @ e1 @ [Log (LogFailedToPlay (title ?x))]" b']
      show ?thesis
        by (simp add: Let_def split: prod.splits)
    qed
  qed
qed

section \<open>Temporary files of the resolvers\<close>

lemma create_temp_file_tracked:
  "fst (create_temp_file stem suffix ts) = stem @ suffix \<and>
   stem @ suffix \<in> files (snd (create_temp_file stem suffix ts)) \<and>
   stem @ suffix \<in> temp_files (snd (create_temp_file stem suffix ts))"
  by (simp add: create_temp_file_def Let_def)

lemma release_on_error_removes_file:
  "\<not> on_disk (release_on_error True path ts) path"
  by (simp add: release_on_error_def cleanup_file_def on_disk_def)

lemma release_on_error_untracks:
  "on_disk ts path \<Longrightarrow> path \<notin> temp_files (release_on_error True path ts)"
  by (simp add: release_on_error_def cleanup_file_def)

text \<open>The paths on which the resolvers do release the file: an exception after the
  allocation, with the file on disk and \<open>os.unlink\<close> succeeding.\<close>

lemma resolve_youtube_probe_error_releases:
  assumes "yt_dlp_available w" and "ffmpeg_available w" and "yt_alloc w = Inr stem"
    and "yt_extract_info w = Inl e" and "yt_unlink_ok w"
  shows "fst (resolve_youtube w md ts) = None \<and>
         stem @ ''.mp3'' \<notin> files (snd (resolve_youtube w md ts)) \<and>
         stem @ ''.mp3'' \<notin> temp_files (snd (resolve_youtube w md ts))"
  using assms
  by (simp add: resolve_youtube_def create_temp_file_def Let_def release_on_error_def
      cleanup_file_def on_disk_def)

lemma resolve_url_over_cap_releases:
  assumes "url_session w = None" and "head_phase (url_head w) = ContentType ct"
    and "url_alloc w = Inr stem" and "url_get w = Inr response"
    and "get_status response = 200" and "exceeds_cap 0 (get_chunks response)"
    and "url_unlink_ok w" and "stem \<noteq> []"
  shows "fst (resolve_url w md url ts) = None \<and>
         stem @ url_suffix ct \<notin> files (snd (resolve_url w md url ts)) \<and>
         stem @ url_suffix ct \<notin> temp_files (snd (resolve_url w md url ts))"
  using assms
  by (simp add: resolve_url_def create_temp_file_def Let_def release_on_error_def
      cleanup_file_def on_disk_def)

text \<open>A size declared above the cap is rejected in the \<open>HEAD\<close> phase, before any file is
  allocated.\<close>

lemma resolve_url_declared_150mb:
  "resolve_url url_150mb md url ts = (None, ts)"
  by (simp add: resolve_url_def url_150mb_def head_phase_def size_too_large_def py_int_def
      py_strip_def is_space_def is_digit_def digit_val_def)

text \<open>The two early returns that leave the file behind, for every input that reaches them.\<close>

lemma resolve_youtube_too_long_keeps_file:
  assumes "yt_dlp_available w" and "ffmpeg_available w" and "yt_alloc w = Inr stem"
    and "yt_extract_info w = Inr info" and "info_duration info = Seconds n" and "n > 3600"
  shows "resolve_youtube w md ts = (None, snd (create_temp_file stem ''.mp3'' ts))"
  using assms
  by (simp add: resolve_youtube_def create_temp_file_def Let_def)

lemma resolve_url_bad_status_keeps_file:
  assumes "url_session w = None" and "head_phase (url_head w) = ContentType ct"
    and "url_alloc w = Inr stem" and "url_get w = Inr response"
    and "get_status response \<noteq> 200"
  shows "resolve_url w md url ts = (None, snd (create_temp_file stem (url_suffix ct) ts))"
  using assms
  by (simp add: resolve_url_def create_temp_file_def Let_def)

text \<open>
  C2. The resolvers do not release the file on every failure. A video longer than the
  limit makes the YouTube resolver return \<open>None\<close> from inside the \<open>try\<close>, and a \<open>GET\<close>
  status other than 200 makes the direct URL resolver return \<open>None\<close>; neither return
  reaches the cleanup of the \<open>except\<close> branch, so the file allocated before stays on disk
  and in \<open>_temp_files\<close>.
\<close>

theorem resolvers_keep_file_on_early_return:
  "resolve_youtube yt_too_long None empty_store =
     (None, \<lparr>files = {''/tmp/tmpq1.mp3''}, temp_files = {''/tmp/tmpq1.mp3''}\<rparr>) \<and>
   resolve_url url_get_503 None ''http://h/a.mp3'' empty_store =
     (None, \<lparr>files = {''/tmp/tmpq2.m4a''}, temp_files = {''/tmp/tmpq2.m4a''}\<rparr>)"
proof
  show "resolve_youtube yt_too_long None empty_store =
     (None, \<lparr>files = {''/tmp/tmpq1.mp3''}, temp_files = {''/tmp/tmpq1.mp3''}\<rparr>)"
    by (simp add: resolve_youtube_def yt_too_long_def empty_store_def create_temp_file_def
        Let_def)
  have h: "head_phase (url_head url_get_503) = ContentType ''audio/mpeg''"
    by (simp add: url_get_503_def head_phase_def size_too_large_def py_int_def
        py_strip_def is_space_def is_digit_def digit_val_def py_lower_def lower_char_def)
  have s: "url_suffix ''audio/mpeg'' = ''.m4a''"
    by (simp add: url_suffix_def starts_with_def)
  show "resolve_url url_get_503 None ''http://h/a.mp3'' empty_store =
     (None, \<lparr>files = {''/tmp/tmpq2.m4a''}, temp_files = {''/tmp/tmpq2.m4a''}\<rparr>)"
    using resolve_url_bad_status_keeps_file [OF _ h,
        of "''/tmp/tmpq2''" "\<lparr>get_status = 503, get_chunks = [], get_fails = False\<rparr>"
          None "''http://h/a.mp3''" empty_store]
    by (simp add: url_get_503_def s create_temp_file_def Let_def empty_store_def)
qed

section \<open>The keys of the queue dict\<close>

text \<open>The keys of \<open>_queues\<close> are distinct in a new manager and stay so.\<close>

lemma distinct_queues_new: "distinct (map fst (queues new_queue_manager))"
  by (simp add: new_queue_manager_def)

lemma distinct_queues_add_item:
  "distinct (map fst (queues qm)) \<Longrightarrow>
   distinct (map fst (queues (snd (add_item now qm d item))))"
  by (simp add: add_item_def Let_def distinct_update)

lemma distinct_queues_clear_queue:
  "distinct (map fst (queues qm)) \<Longrightarrow> distinct (map fst (queues (clear_queue qm d)))"
  by (simp add: clear_queue_def distinct_delete)

lemma distinct_queues_next_item:
  "distinct (map fst (queues qm)) \<Longrightarrow> distinct (map fst (queues (snd (next_item qm d))))"
  by (simp add: queues_next_item)

lemma distinct_queues_set_repeat:
  "distinct (map fst (queues qm)) \<Longrightarrow> distinct (map fst (queues (set_repeat qm d b)))"
  by (simp add: set_repeat_def)

section \<open>Decimal strings\<close>

lemma is_digit_digit_char: "d < 10 \<Longrightarrow> is_digit (digit_char d)"
  by (simp add: is_digit_def digit_char_def)

lemma digit_val_digit_char: "d < 10 \<Longrightarrow> digit_val (digit_char d) = d"
  by (simp add: digit_val_def digit_char_def)

lemma str_nat_digits: "c \<in> set (str_nat n) \<Longrightarrow> is_digit c"
proof (induction n rule: str_nat.induct)
  case (1 n)
  show ?case
  proof (cases "n < 10")
    case True
    with "1.prems" show ?thesis
      by (simp add: str_nat.simps [of n] is_digit_digit_char)
  next
    case False
    with "1.prems" "1.IH" show ?thesis
      by (auto simp add: str_nat.simps [of n] is_digit_digit_char)
  qed
qed

lemma str_nat_not_Nil: "str_nat n \<noteq> []"
  by (simp add: str_nat.simps [of n])

lemma str_nat_value: "foldl (\<lambda>a c. 10 * a + digit_val c) 0 (str_nat n) = n"
proof (induction n rule: str_nat.induct)
  case (1 n)
  show ?case
  proof (cases "n < 10")
    case True
    then show ?thesis
      by (simp add: str_nat.simps [of n] digit_val_digit_char)
  next
    case False
    with "1.IH" show ?thesis
      by (simp add: str_nat.simps [of n] digit_val_digit_char)
  qed
qed

lemma parse_digits_all_digits:
  assumes "\<forall>c \<in> set ds. is_digit c" and "ds \<noteq> []"
  shows "parse_digits ds acc p = Some (foldl (\<lambda>a c. 10 * a + digit_val c) acc ds)"
  using assms
proof (induction ds arbitrary: acc p)
  case Nil
  then show ?case by simp
next
  case (Cons d ds)
  show ?case
  proof (cases "ds = []")
    case True
    with Cons.prems show ?thesis by simp
  next
    case False
    with Cons show ?thesis by simp
  qed
qed

lemma parse_digits_str_nat: "parse_digits (str_nat n) 0 p = Some n"
  using parse_digits_all_digits [of "str_nat n" 0 p]
  by (simp add: str_nat_digits str_nat_not_Nil str_nat_value)

lemma is_digit_not_space: "is_digit c \<Longrightarrow> \<not> is_space c"
  by (simp add: is_digit_def is_space_def)

lemma dropWhile_no_space:
  "\<forall>c \<in> set xs. \<not> is_space c \<Longrightarrow> dropWhile is_space xs = xs"
  by (cases xs) simp_all

lemma py_strip_no_space:
  assumes "\<forall>c \<in> set s. \<not> is_space c"
  shows "py_strip s = s"
proof -
  from assms have "dropWhile is_space s = s"
    by (rule dropWhile_no_space)
  moreover from assms have "dropWhile is_space (rev s) = rev s"
    by (intro dropWhile_no_space) simp
  ultimately show ?thesis
    by (simp add: py_strip_def)
qed

lemma str_nat_no_space: "c \<in> set (str_nat n) \<Longrightarrow> \<not> is_space c"
  by (rule is_digit_not_space) (rule str_nat_digits)

lemma py_int_py_str: "py_int (py_str i) = Inr i"
proof (cases "i < 0")
  case True
  have "\<not> is_space CHR ''-''"
    by (simp add: is_space_def)
  then have "\<forall>c \<in> set (CHR ''-'' # str_nat (nat (- i))). \<not> is_space c"
    by (auto dest: str_nat_no_space)
  then have "py_strip (py_str i) = CHR ''-'' # str_nat (nat (- i))"
    using True by (simp add: py_str_def py_strip_no_space)
  with True show ?thesis
    by (simp add: py_int_def parse_digits_str_nat)
next
  case False
  obtain c cs where s: "str_nat (nat i) = c # cs"
    using str_nat_not_Nil [of "nat i"] by (cases "str_nat (nat i)") auto
  then have "is_digit c"
    using str_nat_digits [of c "nat i"] by simp
  then have c: "c \<noteq> CHR ''-''" "c \<noteq> CHR ''+''"
    by (auto simp add: is_digit_def)
  have "py_strip (py_str i) = str_nat (nat i)"
    using False by (simp add: py_str_def py_strip_no_space str_nat_no_space)
  with False s c parse_digits_str_nat [of "nat i" False] show ?thesis
    by (simp add: py_int_def)
qed

lemma py_str_inj: "py_str i = py_str j \<Longrightarrow> i = j"
proof -
  assume "py_str i = py_str j"
  then have "py_int (py_str i) = py_int (py_str j)" by simp
  then show "i = j" by (simp add: py_int_py_str)
qed

section \<open>Saving and loading the queues\<close>

lemma from_dict_to_dict: "from_dict (to_dict item) = Inr item"
  by (simp add: from_dict_def to_dict_def field_names_def arg_str_def arg_int_def
      arg_bool_def arg_float_def)

lemma items_from_dicts_to_dict: "items_from_dicts (map to_dict queue) = Inr queue"
  by (induction queue) (simp_all add: from_dict_to_dict)

lemma load_entry_queue_record:
  "load_entry (py_str c) (queue_record qm c queue) qm0 =
     (None,
      qm0\<lparr>queues := AList.update c queue (queues qm0),
          current_playing := AList.update c (cursor qm c) (current_playing qm0),
          repeat_mode := AList.update c (is_repeat_enabled qm c) (repeat_mode qm0)\<rparr>)"
  by (simp add: load_entry_def py_int_py_str queue_record_def py_iter_def
      items_from_dicts_to_dict arg_int_def arg_bool_def cursor_def is_repeat_enabled_def)

lemma update_new_key: "k \<notin> fst ` set al \<Longrightarrow> AList.update k v al = al @ [(k, v)]"
  by (induction al) auto

lemma save_fold:
  assumes "distinct (map fst qs)" and "py_str ` fst ` set qs \<inter> fst ` set acc = {}"
  shows "fold (\<lambda>(chat_id, queue) data.
             if queue \<noteq> []
             then AList.update (py_str chat_id) (queue_record qm chat_id queue) data
             else data) qs acc =
         acc @ map (saved_entry qm) (filter (\<lambda>e. snd e \<noteq> []) qs)"
  using assms
proof (induction qs arbitrary: acc)
  case Nil
  show ?case by simp
next
  case (Cons e qs)
  obtain c q where e: "e = (c, q)" by (cases e)
  from Cons.prems e have d: "distinct (map fst qs)" and c: "c \<notin> fst ` set qs"
    and k: "py_str c \<notin> fst ` set acc" and r: "py_str ` fst ` set qs \<inter> fst ` set acc = {}"
    by auto
  show ?case
  proof (cases "q = []")
    case True
    with e Cons.IH [OF d r] show ?thesis by simp
  next
    case False
    let ?acc = "acc @ [(py_str c, queue_record qm c q)]"
    have "py_str ` fst ` set qs \<inter> fst ` set ?acc = {}"
      using r c by (auto dest: py_str_inj)
    from Cons.IH [OF d this] False e k show ?thesis
      by (simp add: update_new_key saved_entry_def)
  qed
qed

lemma save_queues_entries:
  "distinct (map fst (queues qm)) \<Longrightarrow>
   save_queues qm = map (saved_entry qm) (filter (\<lambda>e. snd e \<noteq> []) (queues qm))"
  using save_fold [of "queues qm" "[]" qm] by (simp add: save_queues_def)

lemma load_entries_saved:
  assumes "distinct (map fst xs)"
  shows "get_queue (load_entries (map (saved_entry qm) xs) qm0) d =
           (case map_of xs d of None \<Rightarrow> get_queue qm0 d | Some q \<Rightarrow> q) \<and>
         cursor (load_entries (map (saved_entry qm) xs) qm0) d =
           (case map_of xs d of None \<Rightarrow> cursor qm0 d | Some q \<Rightarrow> cursor qm d) \<and>
         is_repeat_enabled (load_entries (map (saved_entry qm) xs) qm0) d =
           (case map_of xs d of None \<Rightarrow> is_repeat_enabled qm0 d
            | Some q \<Rightarrow> is_repeat_enabled qm d)"
  using assms
proof (induction xs arbitrary: qm0)
  case Nil
  show ?case by simp
next
  case (Cons e xs)
  obtain c q where e: "e = (c, q)" by (cases e)
  let ?qm1 = "qm0\<lparr>queues := AList.update c q (queues qm0),
          current_playing := AList.update c (cursor qm c) (current_playing qm0),
          repeat_mode := AList.update c (is_repeat_enabled qm c) (repeat_mode qm0)\<rparr>"
  from Cons.prems e have d: "distinct (map fst xs)" and c: "map_of xs c = None"
    by (auto simp add: map_of_eq_None_iff)
  have step: "load_entries (map (saved_entry qm) (e # xs)) qm0 =
      load_entries (map (saved_entry qm) xs) ?qm1"
    by (simp add: e saved_entry_def load_entry_queue_record)
  have g: "get_queue ?qm1 d = (if d = c then q else get_queue qm0 d)"
    "cursor ?qm1 d = (if d = c then cursor qm c else cursor qm0 d)"
    "is_repeat_enabled ?qm1 d = (if d = c then is_repeat_enabled qm c else is_repeat_enabled qm0 d)"
    by (simp_all add: get_queue_def cursor_def is_repeat_enabled_def)
  note IH = Cons.IH [OF d, of ?qm1]
  show ?case
  proof (cases "d = c")
    case True
    with c have m: "map_of xs d = None" "map_of (e # xs) d = Some q"
      by (simp_all add: e)
    from IH show ?thesis
      unfolding step m g by (simp add: True)
  next
    case False
    then have m: "map_of (e # xs) d = map_of xs d"
      by (simp add: e)
    from IH show ?thesis
      unfolding step m g by (simp add: False)
  qed
qed

lemma map_of_nonempty_queues:
  assumes "distinct (map fst qs)" and "dict_get qs d [] \<noteq> []"
  shows "map_of (filter (\<lambda>e. snd e \<noteq> []) qs) d = Some (dict_get qs d [])"
proof -
  from assms(2) obtain q where q: "map_of qs d = Some q" "q \<noteq> []"
    by (auto simp add: dict_get_def split: option.splits)
  then have "(d, q) \<in> set (filter (\<lambda>e. snd e \<noteq> []) qs)"
    by (auto dest: map_of_SomeD)
  moreover have "distinct (map fst (filter (\<lambda>e. snd e \<noteq> []) qs))"
    using assms(1) by (rule distinct_map_filter)
  ultimately have "map_of (filter (\<lambda>e. snd e \<noteq> []) qs) d = Some q"
    by (simp add: map_of_eq_Some_iff)
  with q show ?thesis by (simp add: dict_get_def)
qed

lemma saved_key_has_queue:
  assumes "distinct (map fst (queues qm))" and "(k, v) \<in> set (save_queues qm)"
  shows "\<exists>c. k = py_str c \<and> get_queue qm c \<noteq> [] \<and> v = queue_record qm c (get_queue qm c)"
proof -
  from assms obtain c q where m: "(c, q) \<in> set (queues qm)" and q: "q \<noteq> []"
    and k: "k = py_str c" and v: "v = queue_record qm c q"
    by (auto simp add: save_queues_entries saved_entry_def)
  from m assms(1) have "map_of (queues qm) c = Some q"
    by (simp add: map_of_eq_Some_iff)
  then have "get_queue qm c = q"
    by (simp add: get_queue_def dict_get_def)
  with q k v show ?thesis by blast
qed

text \<open>
  C7. The keys of \<open>_queues\<close> being distinct, as those of a dict are: for every destination
  with a non-empty queue, loading what \<open>save_queues\<close> wrote (into any manager) gives back
  the same items, the same cursor, the same repeat flag and so the same current entry;
  a destination with an empty queue has no key in the saved dict, and every saved key
  is that of a destination with a non-empty queue, stored with its items.
\<close>

theorem save_load_roundtrip:
  assumes "distinct (map fst (queues qm))"
  shows "(get_queue qm d \<noteq> [] \<longrightarrow>
            get_queue (load_queues (PDict (save_queues qm)) qm0) d = get_queue qm d \<and>
            cursor (load_queues (PDict (save_queues qm)) qm0) d = cursor qm d \<and>
            is_repeat_enabled (load_queues (PDict (save_queues qm)) qm0) d =
              is_repeat_enabled qm d \<and>
            get_current (load_queues (PDict (save_queues qm)) qm0) d = get_current qm d) \<and>
         (get_queue qm d = [] \<longrightarrow> map_of (save_queues qm) (py_str d) = None) \<and>
         (\<forall>(k, v) \<in> set (save_queues qm).
            \<exists>c. k = py_str c \<and> get_queue qm c \<noteq> [] \<and>
                v = queue_record qm c (get_queue qm c))"
proof (intro conjI impI)
  let ?xs = "filter (\<lambda>e. snd e \<noteq> []) (queues qm)"
  let ?l = "load_queues (PDict (save_queues qm)) qm0"
  have l: "?l = load_entries (map (saved_entry qm) ?xs) qm0"
    using assms by (simp add: load_queues_def save_queues_entries)
  have dx: "distinct (map fst ?xs)"
    using assms by (rule distinct_map_filter)
  {
    assume ne: "get_queue qm d \<noteq> []"
    then have m: "map_of ?xs d = Some (get_queue qm d)"
      using map_of_nonempty_queues [OF assms, of d] by (simp add: get_queue_def)
    from load_entries_saved [OF dx, of qm qm0 d]
    show q: "get_queue ?l d = get_queue qm d"
      and c: "cursor ?l d = cursor qm d"
      and "is_repeat_enabled ?l d = is_repeat_enabled qm d"
      unfolding l m by simp_all
    from q c show "get_current ?l d = get_current qm d"
      by (simp add: get_current_def cursor_def)
  }
  show "\<forall>(k, v) \<in> set (save_queues qm).
            \<exists>c. k = py_str c \<and> get_queue qm c \<noteq> [] \<and>
                v = queue_record qm c (get_queue qm c)"
    using saved_key_has_queue [OF assms] by blast
  {
    assume e: "get_queue qm d = []"
    show "map_of (save_queues qm) (py_str d) = None"
    proof (rule ccontr)
      assume "map_of (save_queues qm) (py_str d) \<noteq> None"
      then obtain v where "(py_str d, v) \<in> set (save_queues qm)"
        by (auto dest: map_of_SomeD)
      from saved_key_has_queue [OF assms this] obtain c
        where "py_str d = py_str c" and "get_queue qm c \<noteq> []" by blast
      with e show False by (auto dest: py_str_inj)
    qed
  }
qed

theorem save_load_roundtrip_witness:
  "distinct (map fst (queues qm_mixed)) \<and> get_queue qm_mixed 1 \<noteq> [] \<and>
   get_queue (load_queues (PDict (save_queues qm_mixed)) new_queue_manager) 1 =
     [item_a, item_b] \<and>
   cursor (load_queues (PDict (save_queues qm_mixed)) new_queue_manager) 1 = 1 \<and>
   is_repeat_enabled (load_queues (PDict (save_queues qm_mixed)) new_queue_manager) 1 \<and>
   get_current (load_queues (PDict (save_queues qm_mixed)) new_queue_manager) 1 =
     Some item_b"
proof -
  have h: "distinct (map fst (queues qm_mixed))"
    by (simp add: qm_mixed_def)
  have q: "get_queue qm_mixed 1 = [item_a, item_b]" "cursor qm_mixed 1 = 1"
    "is_repeat_enabled qm_mixed 1" "get_current qm_mixed 1 = Some item_b"
    by (simp_all add: qm_mixed_def get_queue_def cursor_def is_repeat_enabled_def
        get_current_def dict_get_def)
  show ?thesis
    using save_load_roundtrip [OF h, of 1 new_queue_manager] h q by simp
qed

text \<open>The saved dict of that state holds the one non-empty queue only.\<close>

lemma save_queues_mixed:
  "map fst (save_queues qm_mixed) = [''1'']"
  by code_simp

end
